theory Spec2Isabelle
  imports Main
begin

section \<open>The chess engine of \<open>src/routes/+page.svelte\<close>\<close>

text \<open>
  The class \<open>Chess\<close> keeps an 8x8 array of one-letter strings (\<open>""\<close> is an empty
  square, upper case is white, lower case is black), the castling flags, the en-passant
  target, the side to move and the game-over fields. Row 0 is black's back rank, row 7 is
  white's; file 0 is the a-file. Squares are pairs \<open>(r, f)\<close> of JavaScript numbers, here
  integers. Every function below is meant for squares on the board and for a grid of eight
  rows of eight cells, which is all the page ever passes: the source indexes
  \<open>this.positions[r][f]\<close> without a check, so off the board it throws a TypeError (row
  index) or reads \<open>undefined\<close> (file index). The model gives such calls no meaning; where a
  property depends on what a cell holds, its theorem takes \<open>inB\<close> and \<open>grid8\<close> as hypotheses.
\<close>

subsection \<open>Pieces, colours and the grid\<close>

type_synonym square = "int \<times> int"

datatype color = W | B

text \<open>
  A cell of \<open>positions\<close>, and the \<open>type\<close> argument of \<open>getLegal\<close>, is one of thirteen
  one-letter strings: \<open>""\<close> (\<open>E\<close>), the black pieces \<open>"r" "n" "b" "q" "k" "p"\<close>
  (\<open>Br\<close> \<open>Bn\<close> \<open>Bb\<close> \<open>Bq\<close> \<open>Bk\<close> \<open>Bp\<close>) and the white pieces
  \<open>"R" "N" "B" "Q" "K" "P"\<close> (\<open>WR\<close> \<open>WN\<close> \<open>WB\<close> \<open>WQ\<close> \<open>WK\<close> \<open>WP\<close>). Nothing else is
  ever written to the grid (\<open>initialPositions\<close>, the moved piece, \<open>rookChar\<close>, \<open>"Q"\<close>,
  \<open>"q"\<close>, \<open>""\<close>), so the strings are an enumeration; \<open>String.prototype.toUpperCase\<close> and
  \<open>toLowerCase\<close> are their tables on these letters (\<open>"".toUpperCase()\<close> is \<open>""\<close>).
\<close>

datatype piece = E | Br | Bn | Bb | Bq | Bk | Bp | WR | WN | WB | WQ | WK | WP

type_synonym grid = "piece list list"

fun toUpperCase :: "piece \<Rightarrow> piece" where
  "toUpperCase Br = WR"
| "toUpperCase Bn = WN"
| "toUpperCase Bb = WB"
| "toUpperCase Bq = WQ"
| "toUpperCase Bk = WK"
| "toUpperCase Bp = WP"
| "toUpperCase x = x"

fun toLowerCase :: "piece \<Rightarrow> piece" where
  "toLowerCase WR = Br"
| "toLowerCase WN = Bn"
| "toLowerCase WB = Bb"
| "toLowerCase WQ = Bq"
| "toLowerCase WK = Bk"
| "toLowerCase WP = Bp"
| "toLowerCase x = x"

text \<open>\<open>p === p.toUpperCase() ? "w" : "b"\<close>\<close>

definition colorOf :: "piece \<Rightarrow> color" where
  "colorOf p = (if p = toUpperCase p then W else B)"

definition initialPositions :: grid where
  "initialPositions =
    [[Br, Bn, Bb, Bq, Bk, Bb, Bn, Br],
     [Bp, Bp, Bp, Bp, Bp, Bp, Bp, Bp],
     [E, E, E, E, E, E, E, E],
     [E, E, E, E, E, E, E, E],
     [E, E, E, E, E, E, E, E],
     [E, E, E, E, E, E, E, E],
     [WP, WP, WP, WP, WP, WP, WP, WP],
     [WR, WN, WB, WQ, WK, WB, WN, WR]]"

definition grid8 :: "grid \<Rightarrow> bool" where
  "grid8 b \<longleftrightarrow> length b = 8 \<and> list_all (\<lambda>row. length row = 8) b"

text \<open>\<open>inB\<close>, \<open>isEmp\<close> and \<open>isEnemy\<close> are the three helpers at the top of \<open>getLegal\<close>.\<close>

definition inB :: "int \<Rightarrow> int \<Rightarrow> bool" where
  "inB nr nf \<longleftrightarrow> nr \<ge> 0 \<and> nr < 8 \<and> nf \<ge> 0 \<and> nf < 8"

definition cell :: "grid \<Rightarrow> int \<Rightarrow> int \<Rightarrow> piece" where
  "cell b r f = b ! nat r ! nat f"

definition setCell :: "grid \<Rightarrow> int \<Rightarrow> int \<Rightarrow> piece \<Rightarrow> grid" where
  "setCell b r f v = b[nat r := (b ! nat r)[nat f := v]]"

definition isEmp :: "grid \<Rightarrow> int \<Rightarrow> int \<Rightarrow> bool" where
  "isEmp b nr nf \<longleftrightarrow> cell b nr nf = E"

definition isEnemy :: "grid \<Rightarrow> piece \<Rightarrow> int \<Rightarrow> int \<Rightarrow> bool" where
  "isEnemy b type nr nf \<longleftrightarrow>
     cell b nr nf \<noteq> E \<and>
     (cell b nr nf = toUpperCase (cell b nr nf)) \<noteq> (type = toUpperCase type)"

text \<open>The loops \<open>for r in 0..7, for f in 0..7\<close> visit the squares in this order.\<close>

definition idx8 :: "int list" where
  "idx8 = [0, 1, 2, 3, 4, 5, 6, 7]"

definition squares64 :: "square list" where
  "squares64 = concat (map (\<lambda>r. map (\<lambda>f. (r, f)) idx8) idx8)"

text \<open>\<open>Array.prototype.some\<close>, and the early \<open>return true\<close> of the scanning loops.\<close>

fun some :: "('a \<Rightarrow> bool) \<Rightarrow> 'a list \<Rightarrow> bool" where
  "some P [] = False"
| "some P (x # xs) = (if P x then True else some P xs)"

subsection \<open>The state of a game\<close>

text \<open>
  The object's field \<open>positions\<close> holds a reference to the array of rows. In \<open>chess\<close> the
  field holds the grid itself, the contents found behind the reference; the type parameter
  lets the same record hold the reference where the arrays are modelled in a store
  (the last part of the model).
\<close>

record 'p chessOf =
  positions :: 'p
  kingMovedW :: bool
  kingMovedB :: bool
  rookMovedWA :: bool
  rookMovedWH :: bool
  rookMovedBA :: bool
  rookMovedBH :: bool
  enPassantTarget :: "square option"
  turn :: color
  gameOver :: bool
  gameOverType :: "string option"
  gameOverColor :: "square option"

type_synonym chess = "grid chessOf"

definition kingMoved :: "chess \<Rightarrow> color \<Rightarrow> bool" where
  "kingMoved s c = (if c = W then kingMovedW s else kingMovedB s)"

definition rookMovedA :: "chess \<Rightarrow> color \<Rightarrow> bool" where
  "rookMovedA s c = (if c = W then rookMovedWA s else rookMovedBA s)"

definition rookMovedH :: "chess \<Rightarrow> color \<Rightarrow> bool" where
  "rookMovedH s c = (if c = W then rookMovedWH s else rookMovedBH s)"

text \<open>
  The constructor and \<open>restart\<close>. The fields \<open>boardEl\<close> and \<open>size\<close> belong to the drawing
  code and are left out; \<open>currentDrag\<close>, which only the mouse handlers use and \<open>restart\<close>
  does not touch, is kept beside the game in the record \<open>page\<close> below.
\<close>

definition constructor :: chess where
  "constructor =
     \<lparr> positions = initialPositions,
       kingMovedW = False, kingMovedB = False,
       rookMovedWA = False, rookMovedWH = False,
       rookMovedBA = False, rookMovedBH = False,
       enPassantTarget = None,
       turn = W,
       gameOver = False, gameOverType = None, gameOverColor = None \<rparr>"

definition restart :: "chess \<Rightarrow> chess" where
  "restart s =
     s\<lparr> positions := initialPositions,
        enPassantTarget := None,
        turn := W,
        gameOver := False, gameOverType := None, gameOverColor := None,
        kingMovedW := False, kingMovedB := False,
        rookMovedWA := False, rookMovedWH := False,
        rookMovedBA := False, rookMovedBH := False \<rparr>"

subsection \<open>findKing\<close>

definition isKingOf :: "color \<Rightarrow> piece \<Rightarrow> bool" where
  "isKingOf c p \<longleftrightarrow> p \<noteq> E \<and> (if c = W then p = WK else p = Bk)"

definition findKing :: "grid \<Rightarrow> color \<Rightarrow> square" where
  "findKing b c =
     (case find (\<lambda>(r, f). isKingOf c (cell b r f)) squares64 of
        Some sq \<Rightarrow> sq
      | None \<Rightarrow> (0, 0))"

subsection \<open>getLegal: the movement patterns\<close>

definition step :: "grid \<Rightarrow> piece \<Rightarrow> int \<Rightarrow> int \<Rightarrow> square list" where
  "step b type nr nf =
     (if inB nr nf \<and> (isEmp b nr nf \<or> isEnemy b type nr nf) then [(nr, nf)] else [])"

definition pawnMoves :: "grid \<Rightarrow> square option \<Rightarrow> piece \<Rightarrow> int \<Rightarrow> int \<Rightarrow> square list" where
  "pawnMoves b ep type r f =
     (let dir = (if type = WP then -1 else 1);
          sr = (if type = WP then 6 else 1);
          one = r + dir;
          two = r + dir * 2
      in (if inB one f \<and> isEmp b one f then [(one, f)] else []) @
         (if r = sr \<and> inB two f \<and> isEmp b one f \<and> isEmp b two f then [(two, f)] else []) @
         concat (map (\<lambda>df.
            let nr = r + dir; nf = f + df
            in if inB nr nf \<and> (isEnemy b type nr nf \<or> ep = Some (nr, nf))
               then [(nr, nf)] else []) [-1, 1]))"

definition knightMoves :: "grid \<Rightarrow> piece \<Rightarrow> int \<Rightarrow> int \<Rightarrow> square list" where
  "knightMoves b type r f =
     concat (map (\<lambda>(d0, d1). step b type (r + d0) (f + d1))
       [(2, 1), (2, -1), (-2, 1), (-2, -1), (1, 2), (1, -2), (-1, 2), (-1, -2)])"

definition kingSteps :: "grid \<Rightarrow> piece \<Rightarrow> int \<Rightarrow> int \<Rightarrow> square list" where
  "kingSteps b type r f =
     concat (map (\<lambda>dr. concat (map (\<lambda>df.
        if \<not> (dr = 0 \<and> df = 0) then step b type (r + dr) (f + df) else [])
        [-1, 0, 1])) [-1, 0, 1])"

text \<open>
  The \<open>while (inB(nr, nf))\<close> loop of the sliding pieces. The source only passes the eight
  unit directions; the guard on the direction is what makes the recursion total.
\<close>

function slide :: "grid \<Rightarrow> piece \<Rightarrow> int \<Rightarrow> int \<Rightarrow> int \<Rightarrow> int \<Rightarrow> square list" where
  "slide b type d0 d1 nr nf =
     (if inB nr nf \<and> \<not> (d0 = 0 \<and> d1 = 0) then
        (if isEmp b nr nf then (nr, nf) # slide b type d0 d1 (nr + d0) (nf + d1)
         else (if isEnemy b type nr nf then [(nr, nf)] else []))
      else [])"
  by pat_completeness auto
termination
  by (relation "measure (\<lambda>(b, type, d0, d1, nr, nf).
        if d0 > 0 then nat (8 - nr) else if d0 < 0 then nat (nr + 1)
        else if d1 > 0 then nat (8 - nf) else nat (nf + 1))")
     (auto simp: inB_def)

declare slide.simps [simp del]

definition sliderMoves :: "grid \<Rightarrow> piece \<Rightarrow> int \<Rightarrow> int \<Rightarrow> square list" where
  "sliderMoves b type r f =
     (let lower = toLowerCase type;
          dirs = (if lower = Bb \<or> lower = Bq
                  then [(1, 1), (1, -1), (-1, 1), (-1, -1)] else []) @
                 (if lower = Br \<or> lower = Bq
                  then [(1, 0), (-1, 0), (0, 1), (0, -1)] else [])
      in concat (map (\<lambda>(d0, d1). slide b type d0 d1 (r + d0) (f + d1)) dirs))"

text \<open>
  \<open>getLegal(from, type, true)\<close>: with \<open>ignoreCheck\<close> set, neither the castling block nor
  the filter runs, so the call never reaches \<open>isInCheck\<close>.
\<close>

definition attackMoves :: "grid \<Rightarrow> square option \<Rightarrow> square \<Rightarrow> piece \<Rightarrow> square list" where
  "attackMoves b ep from type =
     (let r = fst from; f = snd from; lower = toLowerCase type
      in if lower = Bp then pawnMoves b ep type r f
         else if lower = Bn then knightMoves b type r f
         else if lower = Bk then kingSteps b type r f
         else sliderMoves b type r f)"

subsection \<open>isInCheck and isAttacked\<close>

definition isAttacked :: "grid \<Rightarrow> square option \<Rightarrow> int \<Rightarrow> int \<Rightarrow> color \<Rightarrow> bool" where
  "isAttacked b ep r f attackerColor =
     some (\<lambda>(i, j).
        let p = cell b i j
        in if p = E then False
           else if colorOf p \<noteq> attackerColor then False
           else some (\<lambda>m. m = (r, f)) (attackMoves b ep (i, j) p)) squares64"

definition isInCheck :: "grid \<Rightarrow> square option \<Rightarrow> color \<Rightarrow> bool" where
  "isInCheck b ep c =
     (let k = findKing b c; enemy = (if c = W then B else W)
      in some (\<lambda>(r, f).
           let p = cell b r f
           in if p = E then False
              else if colorOf p \<noteq> enemy then False
              else some (\<lambda>m. m = k) (attackMoves b ep (r, f) p)) squares64)"

subsection \<open>getLegal: castling and the king-safety filter\<close>

definition castlingMoves :: "chess \<Rightarrow> piece \<Rightarrow> int \<Rightarrow> int \<Rightarrow> square list" where
  "castlingMoves s type r f =
     (let b = positions s; ep = enPassantTarget s;
          c = (if type = WK then W else B);
          enemy = (if c = W then B else W)
      in if \<not> kingMoved s c \<and> \<not> isInCheck b ep c then
           (if \<not> rookMovedH s c \<and> inB r (f + 2) \<and> isEmp b r (f + 1) \<and> isEmp b r (f + 2) \<and>
               \<not> isAttacked b ep r (f + 1) enemy \<and> \<not> isAttacked b ep r (f + 2) enemy
            then [(r, f + 2)] else []) @
           (if \<not> rookMovedA s c \<and> inB r (f - 3) \<and> isEmp b r (f - 1) \<and> isEmp b r (f - 2) \<and>
               isEmp b r (f - 3) \<and>
               \<not> isAttacked b ep r (f - 1) enemy \<and> \<not> isAttacked b ep r (f - 2) enemy
            then [(r, f - 2)] else [])
         else [])"

text \<open>The scratch copy of the filter: \<open>copy[to.r][to.f] = copy[r][f]; copy[r][f] = ""\<close>.\<close>

definition relocate :: "grid \<Rightarrow> square \<Rightarrow> square \<Rightarrow> grid" where
  "relocate b from to =
     setCell (setCell b (fst to) (snd to) (cell b (fst from) (snd from)))
       (fst from) (snd from) E"

definition staysSafe :: "chess \<Rightarrow> square \<Rightarrow> piece \<Rightarrow> square \<Rightarrow> bool" where
  "staysSafe s from type to \<longleftrightarrow>
     \<not> isInCheck (relocate (positions s) from to) (enPassantTarget s) (colorOf type)"

definition getLegal :: "chess \<Rightarrow> square \<Rightarrow> piece \<Rightarrow> bool \<Rightarrow> square list" where
  "getLegal s from type ignoreCheck =
     (let moves = attackMoves (positions s) (enPassantTarget s) from type @
                  (if toLowerCase type = Bk \<and> \<not> ignoreCheck
                   then castlingMoves s type (fst from) (snd from) else [])
      in if \<not> ignoreCheck then filter (staysSafe s from type) moves else moves)"

subsection \<open>movePiece\<close>

text \<open>
  \<open>anyMoves\<close>: the \<open>flatMap\<close> over the rows with their indices, the filter on the mover's
  pieces and \<open>some\<close> on a non-empty \<open>getLegal\<close>.
\<close>

definition anyMoves :: "chess \<Rightarrow> bool" where
  "anyMoves s =
     some (\<lambda>(p, r0, f0). getLegal s (r0, f0) p False \<noteq> [])
       (filter (\<lambda>(p, r0, f0). p \<noteq> E \<and> colorOf p = turn s)
         (concat (map (\<lambda>(r0, row). map (\<lambda>(f0, p). (p, int r0, int f0)) (enumerate 0 row))
            (enumerate 0 (positions s)))))"

text \<open>
  \<open>movePiece\<close> in two parts: \<open>applyMove\<close> is the function up to the switch of the turn
  (the en-passant capture, the new target, the relocation, the castling rook, the moved
  flags and the promotion), \<open>updateStatus\<close> is the game-over test that follows it. The
  final \<open>generateBoard\<close> only draws.
\<close>

definition applyMove :: "chess \<Rightarrow> square \<Rightarrow> square \<Rightarrow> chess" where
  "applyMove s from to =
     (let t = cell (positions s) (fst from) (snd from);
          color = colorOf t;
          \<comment> \<open>en passant capture\<close>
          b1 = (if toLowerCase t = Bp \<and> enPassantTarget s = Some to
                then setCell (positions s) (fst from) (snd to) E else positions s);
          \<comment> \<open>the en passant target is reset, then set again by a two-square pawn move\<close>
          ep = (if toLowerCase t = Bp \<and> \<bar>fst to - fst from\<bar> = 2
                then Some ((fst from + fst to) div 2, snd from) else None);
          \<comment> \<open>the piece moves\<close>
          b2 = setCell (setCell b1 (fst to) (snd to) t) (fst from) (snd from) E;
          \<comment> \<open>the rook of a castling king\<close>
          castles = (toLowerCase t = Bk \<and> \<bar>snd to - snd from\<bar> = 2);
          homeRow = (if color = W then 7 else 0);
          rookChar = (if color = W then WR else Br);
          b3 = (if castles then
                  (if snd to > snd from
                   then setCell (setCell b2 homeRow 5 rookChar) homeRow 7 E
                   else setCell (setCell b2 homeRow 3 rookChar) homeRow 0 E)
                else b2);
          s1 = s\<lparr> positions := b3, enPassantTarget := ep \<rparr>;
          s2 = (if castles then
                  (if snd to > snd from
                   then (if color = W then s1\<lparr> rookMovedWH := True \<rparr>
                         else s1\<lparr> rookMovedBH := True \<rparr>)
                   else (if color = W then s1\<lparr> rookMovedWA := True \<rparr>
                         else s1\<lparr> rookMovedBA := True \<rparr>))
                else s1);
          \<comment> \<open>the moved flags\<close>
          s3 = (if t = WK then s2\<lparr> kingMovedW := True \<rparr>
                else if t = Bk then s2\<lparr> kingMovedB := True \<rparr>
                else if t = WR then
                  s2\<lparr> rookMovedWA := (rookMovedWA s2 \<or> from = (7, 0)),
                      rookMovedWH := (rookMovedWH s2 \<or> from = (7, 7)) \<rparr>
                else if t = Br then
                  s2\<lparr> rookMovedBA := (rookMovedBA s2 \<or> from = (0, 0)),
                      rookMovedBH := (rookMovedBH s2 \<or> from = (0, 7)) \<rparr>
                else s2);
          \<comment> \<open>promotion\<close>
          b4 = (if t = WP \<and> fst to = 0 then setCell (positions s3) (fst to) (snd to) WQ
                else positions s3);
          b5 = (if t = Bp \<and> fst to = 7 then setCell b4 (fst to) (snd to) Bq else b4)
          \<comment> \<open>the turn switches\<close>
      in s3\<lparr> positions := b5, turn := (if turn s3 = W then B else W) \<rparr>)"

definition updateStatus :: "chess \<Rightarrow> chess" where
  "updateStatus s =
     (let inChk = isInCheck (positions s) (enPassantTarget s) (turn s);
          any = anyMoves s
      in if inChk \<and> \<not> any then
           s\<lparr> gameOver := True, gameOverType := Some ''checkmate'',
              gameOverColor := Some (findKing (positions s) (turn s)) \<rparr>
         else if \<not> inChk \<and> \<not> any then
           s\<lparr> gameOver := True, gameOverType := Some ''stalemate'',
              gameOverColor := Some (findKing (positions s) (turn s)) \<rparr>
         else s)"

definition movePiece :: "chess \<Rightarrow> square \<Rightarrow> square \<Rightarrow> chess" where
  "movePiece s from to = updateStatus (applyMove s from to)"

subsection \<open>The mouse handlers\<close>

text \<open>
  The object seen by the handlers: the game and \<open>currentDrag\<close>, of which the origin square
  and the dragged image's \<open>alt\<close> (the piece letter) are kept.
  \<open>_onMouseDown\<close> on the image of the piece \<open>type\<close> drawn at \<open>(r, f)\<close> returns the new state
  and the squares it marks with a dot (the moves it generated). \<open>_onMouseUp\<close> is over the
  square \<open>to\<close> (any pair of integers: the pointer may be released off the board).
\<close>

record page =
  game :: chess
  currentDrag :: "(square \<times> piece) option"

definition onMouseDown :: "page \<Rightarrow> square \<Rightarrow> piece \<Rightarrow> page \<times> square list" where
  "onMouseDown pg from type =
     (if gameOver (game pg) then (pg, [])
      else if colorOf type \<noteq> turn (game pg) then (pg, [])
      else let legal = getLegal (game pg) from type False
           in if legal = [] then (pg, [])
              else (pg\<lparr> currentDrag := Some (from, type) \<rparr>, legal))"

definition onMouseUp :: "page \<Rightarrow> square \<Rightarrow> page" where
  "onMouseUp pg to =
     (case currentDrag pg of
        None \<Rightarrow> pg
      | Some (from, alt) \<Rightarrow>
          let moves = getLegal (game pg) from alt False
          in \<lparr> game = (if some (\<lambda>m. m = to) moves then movePiece (game pg) from to
                        else game pg),
               currentDrag = None \<rparr>)"

text \<open>An attempted move: the pointer goes down on the piece drawn at \<open>from\<close> and up over \<open>to\<close>.\<close>

definition attempt :: "page \<Rightarrow> square \<Rightarrow> square \<Rightarrow> page" where
  "attempt pg from to =
     onMouseUp (fst (onMouseDown pg from (cell (positions (game pg)) (fst from) (snd from)))) to"

text \<open>A list of attempted moves, one after the other.\<close>

fun attempts :: "page \<Rightarrow> (square \<times> square) list \<Rightarrow> page" where
  "attempts pg [] = pg"
| "attempts pg ((from, to) # ms) = attempts (attempt pg from to) ms"

text \<open>
  The states of the page: it starts with a new game and no drag, and then sees presses,
  releases and clicks on the restart button (\<open>restart\<close> leaves \<open>currentDrag\<close> alone).
\<close>

inductive pages :: "page \<Rightarrow> bool" where
  loaded: "pages \<lparr> game = constructor, currentDrag = None \<rparr>"
| pressed: "pages pg \<Longrightarrow> pages (fst (onMouseDown pg from type))"
| released: "pages pg \<Longrightarrow> pages (onMouseUp pg to)"
| restarted: "pages pg \<Longrightarrow> pages (pg\<lparr> game := restart (game pg) \<rparr>)"

text \<open>
  A game: from the constructor, each move is one returned by \<open>getLegal\<close> (without
  \<open>ignoreCheck\<close>) for a piece of the side to move. \<open>play\<close> runs a list of such moves and
  stops at the first one that is not.
\<close>

definition legalMove :: "chess \<Rightarrow> square \<Rightarrow> square \<Rightarrow> bool" where
  "legalMove s from to \<longleftrightarrow>
     inB (fst from) (snd from) \<and>
     (let p = cell (positions s) (fst from) (snd from)
      in p \<noteq> E \<and> colorOf p = turn s \<and> some (\<lambda>m. m = to) (getLegal s from p False))"

inductive reachable :: "chess \<Rightarrow> bool" where
  start: "reachable constructor"
| move: "reachable s \<Longrightarrow> legalMove s from to \<Longrightarrow> reachable (movePiece s from to)"

fun play :: "chess \<Rightarrow> (square \<times> square) list \<Rightarrow> chess option" where
  "play s [] = Some s"
| "play s ((from, to) # ms) =
     (if legalMove s from to then play (movePiece s from to) ms else None)"

subsection \<open>The arrays in a store\<close>

text \<open>
  The king-safety filter of \<open>getLegal\<close> writes to arrays and assigns \<open>this.positions\<close>. To see
  what it leaves behind, the arrays are kept in a store: a row is an array of letters at an
  address, a grid is an array of row addresses at an address, and \<open>fresh\<close> is the first
  address not yet handed out. The object's \<open>positions\<close> is then an address, and \<open>view\<close> is the
  game the object stands for.
\<close>

type_synonym ref = nat

record store =
  rowAt :: "ref \<Rightarrow> piece list"
  gridAt :: "ref \<Rightarrow> ref list"
  fresh :: ref

definition gridOf :: "store \<Rightarrow> ref \<Rightarrow> grid" where
  "gridOf h g = map (rowAt h) (gridAt h g)"

definition view :: "store \<Rightarrow> ref chessOf \<Rightarrow> chess" where
  "view h th =
     \<lparr> positions = gridOf h (positions th),
       kingMovedW = kingMovedW th, kingMovedB = kingMovedB th,
       rookMovedWA = rookMovedWA th, rookMovedWH = rookMovedWH th,
       rookMovedBA = rookMovedBA th, rookMovedBH = rookMovedBH th,
       enPassantTarget = enPassantTarget th,
       turn = turn th,
       gameOver = gameOver th, gameOverType = gameOverType th,
       gameOverColor = gameOverColor th \<rparr>"

text \<open>The grid at \<open>g\<close> and its rows are addresses already handed out.\<close>

definition allocated :: "store \<Rightarrow> ref \<Rightarrow> bool" where
  "allocated h g \<longleftrightarrow> g < fresh h \<and> list_all (\<lambda>a. a < fresh h) (gridAt h g)"

text \<open>\<open>[...row]\<close>: a new array with the letters of the row at \<open>a\<close>.\<close>

definition spread :: "store \<Rightarrow> ref \<Rightarrow> ref \<times> store" where
  "spread h a =
     (fresh h, h\<lparr> rowAt := (rowAt h)(fresh h := rowAt h a), fresh := Suc (fresh h) \<rparr>)"

text \<open>\<open>this.positions.map((row) => [...row])\<close>: the rows are copied, then the new grid is made.\<close>

fun mapSpread :: "store \<Rightarrow> ref list \<Rightarrow> ref list \<times> store" where
  "mapSpread h [] = ([], h)"
| "mapSpread h (a # as) =
     (let (c, h1) = spread h a;
          (cs, h2) = mapSpread h1 as
      in (c # cs, h2))"

definition copyGrid :: "store \<Rightarrow> ref \<Rightarrow> ref \<times> store" where
  "copyGrid h g =
     (let (cs, h1) = mapSpread h (gridAt h g)
      in (fresh h1, h1\<lparr> gridAt := (gridAt h1)(fresh h1 := cs), fresh := Suc (fresh h1) \<rparr>))"

text \<open>\<open>g[r][f]\<close> and \<open>g[r][f] = v\<close> for the grid at \<open>g\<close>.\<close>

definition readAt :: "store \<Rightarrow> ref \<Rightarrow> int \<Rightarrow> int \<Rightarrow> piece" where
  "readAt h g r f = rowAt h (gridAt h g ! nat r) ! nat f"

definition writeAt :: "store \<Rightarrow> ref \<Rightarrow> int \<Rightarrow> int \<Rightarrow> piece \<Rightarrow> store" where
  "writeAt h g r f v =
     h\<lparr> rowAt := (rowAt h)
          (gridAt h g ! nat r := (rowAt h (gridAt h g ! nat r))[nat f := v]) \<rparr>"

text \<open>
  The three queries on the store. Each returns its result, the store and the object as it
  leaves them. \<open>isInCheck\<close> and \<open>isAttacked\<close>, and \<open>getLegal\<close> up to the filter, hold no
  assignment: they read the grid behind \<open>this.positions\<close>. The filter, for each candidate,
  copies the grid, writes the move on the copy, points \<open>this.positions\<close> to the copy, asks
  \<open>isInCheck\<close>, and points \<open>this.positions\<close> back to \<open>tmp\<close>.
\<close>

definition isInCheckH :: "store \<Rightarrow> ref chessOf \<Rightarrow> color \<Rightarrow> bool \<times> store \<times> ref chessOf" where
  "isInCheckH h th c = (isInCheck (gridOf h (positions th)) (enPassantTarget th) c, h, th)"

definition isAttackedH ::
  "store \<Rightarrow> ref chessOf \<Rightarrow> int \<Rightarrow> int \<Rightarrow> color \<Rightarrow> bool \<times> store \<times> ref chessOf" where
  "isAttackedH h th r f c =
     (isAttacked (gridOf h (positions th)) (enPassantTarget th) r f c, h, th)"

fun filterH ::
  "store \<Rightarrow> ref chessOf \<Rightarrow> square \<Rightarrow> piece \<Rightarrow> square list \<Rightarrow>
   square list \<times> store \<times> ref chessOf" where
  "filterH h th from type [] = ([], h, th)"
| "filterH h th from type (to # rest) =
     (let (copy, h1) = copyGrid h (positions th);
          h2 = writeAt h1 copy (fst to) (snd to) (readAt h1 copy (fst from) (snd from));
          h3 = writeAt h2 copy (fst from) (snd from) E;
          tmp = positions th;
          th1 = th\<lparr> positions := copy \<rparr>;
          (inChk, h4, th2) = isInCheckH h3 th1 (colorOf type);
          th3 = th2\<lparr> positions := tmp \<rparr>;
          (kept, h5, th4) = filterH h4 th3 from type rest
      in (if \<not> inChk then to # kept else kept, h5, th4))"

definition getLegalH ::
  "store \<Rightarrow> ref chessOf \<Rightarrow> square \<Rightarrow> piece \<Rightarrow> bool \<Rightarrow>
   square list \<times> store \<times> ref chessOf" where
  "getLegalH h th from type ignoreCheck =
     (let s = view h th;
          moves = attackMoves (positions s) (enPassantTarget s) from type @
                  (if toLowerCase type = Bk \<and> \<not> ignoreCheck
                   then castlingMoves s type (fst from) (snd from) else [])
      in if \<not> ignoreCheck then filterH h th from type moves else (moves, h, th))"

text \<open>
  A store holding the starting position: its rows at the addresses 0 to 7 and the grid at
  8, with the object of a new game pointing to it.
\<close>

definition store0 :: store where
  "store0 =
     \<lparr> rowAt = (\<lambda>a. if a < 8 then initialPositions ! a else []),
       gridAt = (\<lambda>g. if g = 8 then [0, 1, 2, 3, 4, 5, 6, 7] else []),
       fresh = 9 \<rparr>"

definition this0 :: "ref chessOf" where
  "this0 =
     \<lparr> positions = 8,
       kingMovedW = False, kingMovedB = False,
       rookMovedWA = False, rookMovedWH = False,
       rookMovedBA = False, rookMovedBH = False,
       enPassantTarget = None,
       turn = W,
       gameOver = False, gameOverType = None, gameOverColor = None \<rparr>"

subsection \<open>Positions used below\<close>

text \<open>
  The game 1. f3 e5 2. g4 Qh4: \<open>beforeMate\<close> is the state with black to play the queen,
  \<open>mated\<close> the state after it.
\<close>

definition foolsMate :: "(square \<times> square) list" where
  "foolsMate = [((6, 5), (5, 5)), ((1, 4), (3, 4)), ((6, 6), (4, 6)), ((0, 3), (4, 7))]"

definition beforeMate :: chess where
  "beforeMate =
     \<lparr> positions =
         [[Br, Bn, Bb, Bq, Bk, Bb, Bn, Br],
          [Bp, Bp, Bp, Bp, E, Bp, Bp, Bp],
          [E, E, E, E, E, E, E, E],
          [E, E, E, E, Bp, E, E, E],
          [E, E, E, E, E, E, WP, E],
          [E, E, E, E, E, WP, E, E],
          [WP, WP, WP, WP, WP, E, E, WP],
          [WR, WN, WB, WQ, WK, WB, WN, WR]],
       kingMovedW = False, kingMovedB = False,
       rookMovedWA = False, rookMovedWH = False,
       rookMovedBA = False, rookMovedBH = False,
       enPassantTarget = Some (5, 6),
       turn = B,
       gameOver = False, gameOverType = None, gameOverColor = None \<rparr>"

definition mated :: chess where
  "mated =
     \<lparr> positions =
         [[Br, Bn, Bb, E, Bk, Bb, Bn, Br],
          [Bp, Bp, Bp, Bp, E, Bp, Bp, Bp],
          [E, E, E, E, E, E, E, E],
          [E, E, E, E, Bp, E, E, E],
          [E, E, E, E, E, E, WP, Bq],
          [E, E, E, E, E, WP, E, E],
          [WP, WP, WP, WP, WP, E, E, WP],
          [WR, WN, WB, WQ, WK, WB, WN, WR]],
       kingMovedW = False, kingMovedB = False,
       rookMovedWA = False, rookMovedWH = False,
       rookMovedBA = False, rookMovedBH = False,
       enPassantTarget = None,
       turn = W,
       gameOver = True, gameOverType = Some ''checkmate'', gameOverColor = Some (7, 4) \<rparr>"

text \<open>
  White to move with the queen on c6, the black king alone on a8: Qc7 leaves black without
  a move and not in check.
\<close>

definition beforeStalemate :: chess where
  "beforeStalemate =
     \<lparr> positions =
         [[Bk, E, E, E, E, E, E, E],
          [E, E, E, E, E, E, E, E],
          [E, E, WQ, E, E, E, E, E],
          [E, E, E, E, E, E, E, E],
          [E, E, E, E, E, E, E, E],
          [E, E, E, E, E, E, E, E],
          [E, E, E, E, E, E, E, E],
          [E, E, E, E, E, E, E, WK]],
       kingMovedW = True, kingMovedB = True,
       rookMovedWA = True, rookMovedWH = True,
       rookMovedBA = True, rookMovedBH = True,
       enPassantTarget = None,
       turn = W,
       gameOver = False, gameOverType = None, gameOverColor = None \<rparr>"

text \<open>
  A white bishop on e2 shielding the king on e1 from a black rook on e8.
\<close>

definition pinned :: chess where
  "pinned =
     \<lparr> positions =
         [[Bk, E, E, E, Br, E, E, E],
          [E, E, E, E, E, E, E, E],
          [E, E, E, E, E, E, E, E],
          [E, E, E, E, E, E, E, E],
          [E, E, E, E, E, E, E, E],
          [E, E, E, E, E, E, E, E],
          [E, E, E, E, WB, E, E, E],
          [E, E, E, E, WK, E, E, E]],
       kingMovedW = True, kingMovedB = True,
       rookMovedWA = True, rookMovedWH = True,
       rookMovedBA = True, rookMovedBH = True,
       enPassantTarget = None,
       turn = W,
       gameOver = False, gameOverType = None, gameOverColor = None \<rparr>"



text \<open>
  The game 1. e4 d5 2. exd5 e5 3. Nf3 e4 4. Bc4 e3 5. a3 e2 and the state it ends in: white
  to move, king and rooks on their squares, f1 and g1 empty, a black pawn on e2.
\<close>

definition pawnGame :: "(square \<times> square) list" where
  "pawnGame =
     [((6, 4), (4, 4)), ((1, 3), (3, 3)), ((4, 4), (3, 3)), ((1, 4), (3, 4)),
      ((7, 6), (5, 5)), ((3, 4), (4, 4)), ((7, 5), (4, 2)), ((4, 4), (5, 4)),
      ((6, 0), (5, 0)), ((5, 4), (6, 4))]"

definition pawnOnE2 :: chess where
  "pawnOnE2 =
     \<lparr> positions =
         [[Br, Bn, Bb, Bq, Bk, Bb, Bn, Br],
          [Bp, Bp, Bp, E, E, Bp, Bp, Bp],
          [E, E, E, E, E, E, E, E],
          [E, E, E, WP, E, E, E, E],
          [E, E, WB, E, E, E, E, E],
          [WP, E, E, E, E, WN, E, E],
          [E, WP, WP, WP, Bp, WP, WP, WP],
          [WR, WN, WB, WQ, WK, E, E, WR]],
       kingMovedW = False, kingMovedB = False,
       rookMovedWA = False, rookMovedWH = False,
       rookMovedBA = False, rookMovedBH = False,
       enPassantTarget = None,
       turn = W,
       gameOver = False, gameOverType = None, gameOverColor = None \<rparr>"

text \<open>
  The game 1. e4 c6 2. e5 Qa5 3. Ke2 a6 4. Kf3 b6 5. Kg4 Bb7 6. Kg5 d5 7. exd6 (in passing):
  \<open>exposed\<close> is the state after it, with the fifth rank open between the black queen on a5
  and the white king on g5; \<open>kingLost\<close> is the state after 7. ... Qxg5.
\<close>

definition kingGame :: "(square \<times> square) list" where
  "kingGame =
     [((6, 4), (4, 4)), ((1, 2), (2, 2)), ((4, 4), (3, 4)), ((0, 3), (3, 0)),
      ((7, 4), (6, 4)), ((1, 0), (2, 0)), ((6, 4), (5, 5)), ((1, 1), (2, 1)),
      ((5, 5), (4, 6)), ((0, 2), (1, 1)), ((4, 6), (3, 6)), ((1, 3), (3, 3)),
      ((3, 4), (2, 3))]"

definition exposed :: chess where
  "exposed =
     \<lparr> positions =
         [[Br, Bn, E, E, Bk, Bb, Bn, Br],
          [E, Bb, E, E, Bp, Bp, Bp, Bp],
          [Bp, Bp, Bp, WP, E, E, E, E],
          [Bq, E, E, E, E, E, WK, E],
          [E, E, E, E, E, E, E, E],
          [E, E, E, E, E, E, E, E],
          [WP, WP, WP, WP, E, WP, WP, WP],
          [WR, WN, WB, WQ, E, WB, WN, WR]],
       kingMovedW = True, kingMovedB = False,
       rookMovedWA = False, rookMovedWH = False,
       rookMovedBA = False, rookMovedBH = False,
       enPassantTarget = None,
       turn = B,
       gameOver = False, gameOverType = None, gameOverColor = None \<rparr>"

definition kingLost :: chess where
  "kingLost =
     \<lparr> positions =
         [[Br, Bn, E, E, Bk, Bb, Bn, Br],
          [E, Bb, E, E, Bp, Bp, Bp, Bp],
          [Bp, Bp, Bp, WP, E, E, E, E],
          [E, E, E, E, E, E, Bq, E],
          [E, E, E, E, E, E, E, E],
          [E, E, E, E, E, E, E, E],
          [WP, WP, WP, WP, E, WP, WP, WP],
          [WR, WN, WB, WQ, E, WB, WN, WR]],
       kingMovedW = True, kingMovedB = False,
       rookMovedWA = False, rookMovedWH = False,
       rookMovedBA = False, rookMovedBH = False,
       enPassantTarget = None,
       turn = W,
       gameOver = False, gameOverType = None, gameOverColor = None \<rparr>"

text \<open>The number of kings of a colour on the grid.\<close>

definition kings :: "grid \<Rightarrow> color \<Rightarrow> nat" where
  "kings b c = length (filter (isKingOf c) (concat b))"

section \<open>Lemmas\<close>

text \<open>
  \<open>isInCheck\<close> and \<open>isAttacked\<close> call \<open>getLegal\<close> with \<open>ignoreCheck\<close> set, which is
  written out as \<open>attackMoves\<close> above; the two agree.
\<close>

lemma getLegal_ignoreCheck:
  "getLegal s from type True = attackMoves (positions s) (enPassantTarget s) from type"
  by (simp add: getLegal_def)

lemma some_iff: "some P xs \<longleftrightarrow> (\<exists>x\<in>set xs. P x)"
  by (induction xs) auto


lemma grid8_setCell: "grid8 (setCell b r f v) = grid8 b"
  by (cases "nat r < length b")
     (auto simp: grid8_def setCell_def list_all_length nth_list_update)

lemma cell_setCell:
  "grid8 b \<Longrightarrow> inB r f \<Longrightarrow> inB r' f' \<Longrightarrow>
   cell (setCell b r f v) r' f' = (if r' = r \<and> f' = f then v else cell b r' f')"
  by (auto simp: grid8_def setCell_def cell_def inB_def list_all_length nth_list_update)

lemma lower_king: "toLowerCase t = Bk \<longleftrightarrow> t = WK \<or> t = Bk"
  by (cases t) simp_all


text \<open>\<open>isInCheck\<close> says that some piece of the other side has the king's square among its squares.\<close>

lemma isInCheck_iff:
  "isInCheck b ep c \<longleftrightarrow>
     (\<exists>(r, f) \<in> set squares64.
        cell b r f \<noteq> E \<and> colorOf (cell b r f) = (if c = W then B else W) \<and>
        findKing b c \<in> set (attackMoves b ep (r, f) (cell b r f)))"
  by (auto simp: isInCheck_def some_iff Let_def split: if_splits)

text \<open>\<open>anyMoves\<close> says that some piece of the side to move has a move.\<close>

lemma anyMoves_iff:
  "anyMoves s \<longleftrightarrow>
     (\<exists>r f. r < length (positions s) \<and> f < length (positions s ! r) \<and>
        positions s ! r ! f \<noteq> E \<and> colorOf (positions s ! r ! f) = turn s \<and>
        getLegal s (int r, int f) (positions s ! r ! f) False \<noteq> [])"
proof -
  have "anyMoves s \<longleftrightarrow>
      (\<exists>x \<in> set (enumerate 0 (positions s)). \<exists>y \<in> set (enumerate 0 (snd x)).
         snd y \<noteq> E \<and> colorOf (snd y) = turn s \<and>
         getLegal s (int (fst x), int (fst y)) (snd y) False \<noteq> [])"
    unfolding anyMoves_def some_iff set_filter set_concat set_map
    by (auto simp: case_prod_beta) force+
  also have "\<dots> \<longleftrightarrow>
      (\<exists>r f. r < length (positions s) \<and> f < length (positions s ! r) \<and>
        positions s ! r ! f \<noteq> E \<and> colorOf (positions s ! r ! f) = turn s \<and>
        getLegal s (int r, int f) (positions s ! r ! f) False \<noteq> [])"
    by (auto simp: in_set_enumerate_eq Bex_def)
  finally show ?thesis .
qed

text \<open>The game-over fields are read by none of the queries.\<close>

lemma staysSafe_status:
  "staysSafe (s\<lparr>gameOver := a, gameOverType := b, gameOverColor := c\<rparr>) = staysSafe s"
  by (intro ext) (simp add: staysSafe_def)

lemma castlingMoves_status:
  "castlingMoves (s\<lparr>gameOver := a, gameOverType := b, gameOverColor := c\<rparr>) = castlingMoves s"
  by (intro ext)
     (simp add: castlingMoves_def kingMoved_def rookMovedA_def rookMovedH_def Let_def
        cong: if_cong)

lemma getLegal_status:
  "getLegal (s\<lparr>gameOver := a, gameOverType := b, gameOverColor := c\<rparr>) = getLegal s"
  by (intro ext)
     (simp add: getLegal_def Let_def staysSafe_status castlingMoves_status cong: if_cong)

lemma anyMoves_status:
  "anyMoves (s\<lparr>gameOver := a, gameOverType := b, gameOverColor := c\<rparr>) = anyMoves s"
  by (simp add: anyMoves_def getLegal_status)

lemma anyMoves_updateStatus: "anyMoves (updateStatus s) = anyMoves s"
  by (simp add: updateStatus_def Let_def anyMoves_status)

lemma updateStatus_fields:
  "positions (updateStatus s) = positions s"
  "enPassantTarget (updateStatus s) = enPassantTarget s"
  "turn (updateStatus s) = turn s"
  "kingMovedW (updateStatus s) = kingMovedW s"
  "kingMovedB (updateStatus s) = kingMovedB s"
  "rookMovedWA (updateStatus s) = rookMovedWA s"
  "rookMovedWH (updateStatus s) = rookMovedWH s"
  "rookMovedBA (updateStatus s) = rookMovedBA s"
  "rookMovedBH (updateStatus s) = rookMovedBH s"
  by (simp_all add: updateStatus_def Let_def)

lemma turn_applyMove: "turn (applyMove s from to) = (if turn s = W then B else W)"
  by (simp add: applyMove_def Let_def)

lemma status_applyMove:
  "gameOver (applyMove s from to) = gameOver s"
  "gameOverType (applyMove s from to) = gameOverType s"
  "gameOverColor (applyMove s from to) = gameOverColor s"
  by (simp_all add: applyMove_def Let_def)

text \<open>What \<open>play\<close> accepts is a game.\<close>

lemma play_reachable: "reachable s \<Longrightarrow> play s ms = Some s' \<Longrightarrow> reachable s'"
proof (induction ms arbitrary: s)
  case Nil
  then show ?case by simp
next
  case (Cons m ms)
  obtain a b where m: "m = (a, b)"
    by (cases m)
  from Cons.prems(2) m have l: "legalMove s a b"
    and p: "play (movePiece s a b) ms = Some s'"
    by (auto split: if_splits)
  from Cons.prems(1) l have "reachable (movePiece s a b)"
    by (rule reachable.move)
  with p show ?case
    by (rule Cons.IH [rotated])
qed

subsection \<open>Pawns: the double step and the capture in passing\<close>















subsection \<open>The filter on the store\<close>

text \<open>Every square that \<open>getLegal\<close> collects is on the board.\<close>

lemma view_store0: "view store0 this0 = constructor"
  by (simp add: view_def store0_def this0_def constructor_def gridOf_def initialPositions_def)

lemma step_inB: "to \<in> set (step b type nr nf) \<Longrightarrow> inB (fst to) (snd to)"
  by (auto simp: step_def split: if_splits)

lemma pawnMoves_inB: "to \<in> set (pawnMoves b ep type r f) \<Longrightarrow> inB (fst to) (snd to)"
  by (auto simp: pawnMoves_def Let_def split: if_splits)

lemma in_concat_map:
  "to \<in> set (concat (map g xs)) \<Longrightarrow> \<exists>x. to \<in> set (g x)"
  by auto

lemma knightMoves_inB:
  assumes "to \<in> set (knightMoves b type r f)"
  shows "inB (fst to) (snd to)"
proof -
  from assms obtain d where "to \<in> set ((\<lambda>(d0, d1). step b type (r + d0) (f + d1)) d)"
    unfolding knightMoves_def by (blast dest: in_concat_map)
  then show ?thesis
    by (cases d) (simp add: step_inB)
qed

lemma kingSteps_inB:
  assumes "to \<in> set (kingSteps b type r f)"
  shows "inB (fst to) (snd to)"
proof -
  from assms obtain dr where "to \<in> set (concat (map (\<lambda>df.
        if \<not> (dr = 0 \<and> df = 0) then step b type (r + dr) (f + df) else [])
        [-1, 0, 1]))"
    unfolding kingSteps_def by (blast dest: in_concat_map)
  then obtain df where
    "to \<in> set (if \<not> (dr = 0 \<and> df = 0) then step b type (r + dr) (f + df) else [])"
    by (blast dest: in_concat_map)
  then show ?thesis
    by (cases "dr = 0 \<and> df = 0") (simp_all add: step_inB)
qed

lemma slide_inB: "to \<in> set (slide b type d0 d1 nr nf) \<Longrightarrow> inB (fst to) (snd to)"
proof (induction b type d0 d1 nr nf rule: slide.induct)
  case (1 b type d0 d1 nr nf)
  show ?case
  proof (cases "inB nr nf \<and> \<not> (d0 = 0 \<and> d1 = 0)")
    case False
    with "1.prems" show ?thesis
      by (simp add: slide.simps [of b type d0 d1 nr nf])
  next
    case True
    show ?thesis
    proof (cases "isEmp b nr nf")
      case e: True
      from "1.prems" True e have "to = (nr, nf) \<or> to \<in> set (slide b type d0 d1 (nr + d0) (nf + d1))"
        by (simp add: slide.simps [of b type d0 d1 nr nf])
      with True e "1.IH" show ?thesis
        by auto
    next
      case e: False
      from "1.prems" True e have "to = (nr, nf)"
        by (simp add: slide.simps [of b type d0 d1 nr nf] split: if_splits)
      with True show ?thesis
        by simp
    qed
  qed
qed

lemma sliderMoves_inB:
  assumes "to \<in> set (sliderMoves b type r f)"
  shows "inB (fst to) (snd to)"
proof -
  from assms obtain d where
    "to \<in> set ((\<lambda>(d0, d1). slide b type d0 d1 (r + d0) (f + d1)) d)"
    unfolding sliderMoves_def Let_def by (blast dest: in_concat_map)
  then show ?thesis
    by (cases d) (simp add: slide_inB)
qed

lemma attackMoves_inB:
  assumes "to \<in> set (attackMoves b ep from type)"
  shows "inB (fst to) (snd to)"
proof -
  from assms have
    "to \<in> set (pawnMoves b ep type (fst from) (snd from)) \<or>
     to \<in> set (knightMoves b type (fst from) (snd from)) \<or>
     to \<in> set (kingSteps b type (fst from) (snd from)) \<or>
     to \<in> set (sliderMoves b type (fst from) (snd from))"
    by (simp add: attackMoves_def Let_def split: if_splits)
  then show ?thesis
    by (elim disjE) (erule pawnMoves_inB knightMoves_inB kingSteps_inB sliderMoves_inB)+
qed

lemma castlingMoves_inB:
  assumes "to \<in> set (castlingMoves s type r f)" and "inB r f"
  shows "inB (fst to) (snd to)"
proof -
  from assms(1) have "to = (r, f + 2) \<and> inB r (f + 2) \<or> to = (r, f - 2) \<and> inB r (f - 3)"
    by (auto simp: castlingMoves_def Let_def split: if_splits)
  with assms(2) show ?thesis
    by (auto simp: inB_def)
qed


text \<open>Copies are made of new arrays; writing to a copy leaves the older arrays alone.\<close>

lemma mapSpread_props:
  "mapSpread h as = (cs, h1) \<Longrightarrow>
     fresh h \<le> fresh h1 \<and> length cs = length as \<and> gridAt h1 = gridAt h \<and>
     (\<forall>a. a < fresh h \<longrightarrow> rowAt h1 a = rowAt h a) \<and>
     (\<forall>c \<in> set cs. fresh h \<le> c \<and> c < fresh h1) \<and> distinct cs \<and>
     (list_all (\<lambda>a. a < fresh h) as \<longrightarrow> map (rowAt h1) cs = map (rowAt h) as)"
proof (induction as arbitrary: h cs h1)
  case Nil
  then show ?case
    by simp
next
  case (Cons a as)
  define h' where "h' = h\<lparr> rowAt := (rowAt h)(fresh h := rowAt h a), fresh := Suc (fresh h) \<rparr>"
  obtain cs' h2 where m: "mapSpread h' as = (cs', h2)"
    by (cases "mapSpread h' as")
  from Cons.prems m have r: "cs = fresh h # cs'" "h1 = h2"
    by (simp_all add: spread_def h'_def Let_def)
  note ih = Cons.IH [OF m]
  have f: "fresh h' = Suc (fresh h)" "gridAt h' = gridAt h"
    "\<And>x. x \<noteq> fresh h \<Longrightarrow> rowAt h' x = rowAt h x" "rowAt h' (fresh h) = rowAt h a"
    by (simp_all add: h'_def)
  from ih f have 1: "fresh h \<le> fresh h1" "length cs = length (a # as)" "gridAt h1 = gridAt h"
    by (simp_all add: r)
  from ih f have 2: "\<forall>x. x < fresh h \<longrightarrow> rowAt h1 x = rowAt h x"
    by (simp add: r)
  from ih f have 3: "\<forall>c \<in> set cs. fresh h \<le> c \<and> c < fresh h1"
    by (auto simp: r)
  from ih f have 4: "distinct cs"
    by (auto simp: r)
  have 5: "map (rowAt h1) cs = map (rowAt h) (a # as)" if l: "list_all (\<lambda>a. a < fresh h) (a # as)"
  proof -
    from l have la: "list_all (\<lambda>a. a < fresh h') as"
      by (auto simp: f list_all_iff)
    with ih have "map (rowAt h2) cs' = map (rowAt h') as"
      by simp
    also from l have "\<dots> = map (rowAt h) as"
      by (auto simp: f list_all_iff)
    finally have t: "map (rowAt h1) cs' = map (rowAt h) as"
      by (simp add: r)
    from ih f have "rowAt h1 (fresh h) = rowAt h a"
      by (simp add: r)
    with t show ?thesis
      by (simp add: r)
  qed
  from 1 2 3 4 5 show ?case
    by blast
qed

lemma copyGrid_props:
  assumes a: "allocated h g" and c: "copyGrid h g = (k, h1)"
  shows "fresh h \<le> k" "k < fresh h1" "gridOf h1 k = gridOf h g"
    "\<forall>a. a < fresh h \<longrightarrow> rowAt h1 a = rowAt h a \<and> gridAt h1 a = gridAt h a"
    "\<forall>c \<in> set (gridAt h1 k). fresh h \<le> c \<and> c < fresh h1" "distinct (gridAt h1 k)"
    "length (gridAt h1 k) = length (gridAt h g)"
proof -
  obtain cs h2 where m: "mapSpread h (gridAt h g) = (cs, h2)"
    by (cases "mapSpread h (gridAt h g)")
  note p = mapSpread_props [OF m]
  from c m have k: "k = fresh h2"
    and h1: "h1 = h2\<lparr> gridAt := (gridAt h2)(fresh h2 := cs), fresh := Suc (fresh h2) \<rparr>"
    by (auto simp: copyGrid_def Let_def)
  from p show "fresh h \<le> k" "k < fresh h1"
    by (simp_all add: k h1)
  from a p show "gridOf h1 k = gridOf h g"
    by (simp add: gridOf_def k h1 allocated_def)
  from p show "\<forall>a. a < fresh h \<longrightarrow> rowAt h1 a = rowAt h a \<and> gridAt h1 a = gridAt h a"
    by (simp add: k h1)
  from p show "\<forall>c \<in> set (gridAt h1 k). fresh h \<le> c \<and> c < fresh h1"
    by (auto simp: k h1)
  from p show "distinct (gridAt h1 k)" "length (gridAt h1 k) = length (gridAt h g)"
    by (simp_all add: k h1)
qed


lemma readAt_cell:
  "nat r < length (gridAt h k) \<Longrightarrow> readAt h k r f = cell (gridOf h k) r f"
  by (simp add: readAt_def cell_def gridOf_def)

lemma writeAt_fields:
  "gridAt (writeAt h k r f v) = gridAt h" "fresh (writeAt h k r f v) = fresh h"
  by (simp_all add: writeAt_def)

lemma writeAt_old:
  assumes n: "nat r < length (gridAt h k)" and fr: "\<forall>c \<in> set (gridAt h k). n0 \<le> c"
    and a: "a < n0"
  shows "rowAt (writeAt h k r f v) a = rowAt h a"
proof -
  from n fr have "n0 \<le> gridAt h k ! nat r"
    by simp
  with a show ?thesis
    by (simp add: writeAt_def)
qed

lemma writeAt_copy:
  assumes d: "distinct (gridAt h k)" and n: "nat r < length (gridAt h k)"
  shows "gridOf (writeAt h k r f v) k = setCell (gridOf h k) r f v"
proof (rule nth_equalityI)
  show "length (gridOf (writeAt h k r f v) k) = length (setCell (gridOf h k) r f v)"
    by (simp add: gridOf_def setCell_def writeAt_fields)
next
  fix m
  assume "m < length (gridOf (writeAt h k r f v) k)"
  then have m: "m < length (gridAt h k)"
    by (simp add: gridOf_def writeAt_fields)
  from d m n have e: "gridAt h k ! m = gridAt h k ! nat r \<longleftrightarrow> m = nat r"
    by (simp add: nth_eq_iff_index_eq)
  from m n e show "gridOf (writeAt h k r f v) k ! m = setCell (gridOf h k) r f v ! m"
    by (simp add: gridOf_def setCell_def writeAt_def nth_list_update)
qed

lemma gridOf_old:
  assumes a: "allocated h g"
    and u: "\<forall>a. a < fresh h \<longrightarrow> rowAt h' a = rowAt h a \<and> gridAt h' a = gridAt h a"
    and l: "fresh h \<le> fresh h'"
  shows "gridOf h' g = gridOf h g" "allocated h' g"
proof -
  from a have g: "g < fresh h" and r: "\<forall>x \<in> set (gridAt h g). x < fresh h"
    by (simp_all add: allocated_def list_all_iff)
  from g u have e: "gridAt h' g = gridAt h g"
    by simp
  from r u show "gridOf h' g = gridOf h g"
    by (simp add: gridOf_def e)
  from g r l show "allocated h' g"
    by (auto simp: allocated_def list_all_iff e)
qed

lemma filter_step:
  assumes a: "allocated h p" and g: "grid8 (gridOf h p)"
    and f: "inB (fst from) (snd from)" and t: "inB (fst to) (snd to)"
    and c: "copyGrid h p = (k, h1)"
    and h3: "h3 = writeAt (writeAt h1 k (fst to) (snd to) (readAt h1 k (fst from) (snd from)))
                    k (fst from) (snd from) E"
  shows "gridOf h3 k = relocate (gridOf h p) from to"
    and "\<forall>a. a < fresh h \<longrightarrow> rowAt h3 a = rowAt h a \<and> gridAt h3 a = gridAt h a"
    and "fresh h \<le> fresh h3"
proof -
  note p = copyGrid_props [OF a c]
  from g have len: "length (gridAt h p) = 8"
    by (simp add: grid8_def gridOf_def)
  with p have l1: "length (gridAt h1 k) = 8"
    by simp
  from f t l1 have nf: "nat (fst from) < length (gridAt h1 k)"
    and nt: "nat (fst to) < length (gridAt h1 k)"
    by (auto simp: inB_def)
  let ?h2 = "writeAt h1 k (fst to) (snd to) (readAt h1 k (fst from) (snd from))"
  have g2: "gridOf ?h2 k = setCell (gridOf h p) (fst to) (snd to)
      (cell (gridOf h p) (fst from) (snd from))"
    using writeAt_copy [OF p(6) nt] readAt_cell [OF nf] p(3) by simp
  have d2: "distinct (gridAt ?h2 k)" and nf2: "nat (fst from) < length (gridAt ?h2 k)"
    using p(6) nf by (simp_all add: writeAt_fields)
  from writeAt_copy [OF d2 nf2] g2 show "gridOf h3 k = relocate (gridOf h p) from to"
    by (simp add: h3 relocate_def)
  from p(1,2) show "fresh h \<le> fresh h3"
    by (simp add: h3 writeAt_fields)
  show "\<forall>a. a < fresh h \<longrightarrow> rowAt h3 a = rowAt h a \<and> gridAt h3 a = gridAt h a"
  proof (intro allI impI)
    fix a
    assume a: "a < fresh h"
    have fr2: "\<forall>c \<in> set (gridAt ?h2 k). fresh h \<le> c"
      using p(5) by (simp add: writeAt_fields)
    have fr1: "\<forall>c \<in> set (gridAt h1 k). fresh h \<le> c"
      using p(5) by simp
    have "rowAt h3 a = rowAt ?h2 a"
      unfolding h3 using nf2 fr2 a by (rule writeAt_old)
    also have "\<dots> = rowAt h1 a"
      using nt fr1 a by (rule writeAt_old)
    also from p(4) a have "\<dots> = rowAt h a"
      by simp
    finally have r: "rowAt h3 a = rowAt h a" .
    from p(4) a have "gridAt h3 a = gridAt h a"
      by (simp add: h3 writeAt_fields)
    with r show "rowAt h3 a = rowAt h a \<and> gridAt h3 a = gridAt h a"
      by simp
  qed
qed

lemma view_old: "gridOf h' (positions th) = gridOf h (positions th) \<Longrightarrow> view h' th = view h th"
  by (simp add: view_def)

lemma filterH_frame:
  assumes "allocated h (positions th)" "grid8 (gridOf h (positions th))"
    "inB (fst from) (snd from)" "\<forall>to \<in> set cands. inB (fst to) (snd to)"
  shows "\<exists>h'. filterH h th from type cands =
            (filter (staysSafe (view h th) from type) cands, h', th) \<and>
          fresh h \<le> fresh h' \<and>
          (\<forall>a. a < fresh h \<longrightarrow> rowAt h' a = rowAt h a \<and> gridAt h' a = gridAt h a)"
  using assms
proof (induction cands arbitrary: h)
  case Nil
  then show ?case
    by simp
next
  case (Cons x rest)
  let ?p = "positions th"
  obtain k h1 where c: "copyGrid h ?p = (k, h1)"
    by (cases "copyGrid h ?p")
  define h3 where "h3 = writeAt (writeAt h1 k (fst x) (snd x)
      (readAt h1 k (fst from) (snd from))) k (fst from) (snd from) E"
  from Cons.prems have t: "inB (fst x) (snd x)"
    and r: "\<forall>y \<in> set rest. inB (fst y) (snd y)"
    by simp_all
  note s = filter_step [OF Cons.prems(1,2,3) t c h3_def]
  note o = gridOf_old [OF Cons.prems(1) s(2,3)]
  from o Cons.prems(2) have g3: "grid8 (gridOf h3 ?p)"
    by simp
  from Cons.IH [OF o(2) g3 Cons.prems(3) r] obtain h' where
    i: "filterH h3 th from type rest = (filter (staysSafe (view h3 th) from type) rest, h', th)"
    and l: "fresh h3 \<le> fresh h'"
    and u: "\<forall>a. a < fresh h3 \<longrightarrow> rowAt h' a = rowAt h3 a \<and> gridAt h' a = gridAt h3 a"
    by blast
  have v: "view h3 th = view h th"
    using o(1) by (rule view_old)
  have safe: "staysSafe (view h th) from type x \<longleftrightarrow>
      \<not> isInCheck (gridOf h3 k) (enPassantTarget th) (colorOf type)"
    by (simp add: staysSafe_def s(1) view_def)
  have restored: "th\<lparr> positions := k \<rparr>\<lparr> positions := ?p \<rparr> = th"
    by simp
  have "filterH h th from type (x # rest) =
      (filter (staysSafe (view h th) from type) (x # rest), h', th)"
    using i by (simp add: c h3_def [symmetric] Let_def isInCheckH_def restored v safe)
  moreover from s(3) l have "fresh h \<le> fresh h'"
    by simp
  moreover from s(2,3) u have
    "\<forall>a. a < fresh h \<longrightarrow> rowAt h' a = rowAt h a \<and> gridAt h' a = gridAt h a"
    by auto
  ultimately show ?case
    by blast
qed


subsection \<open>No drag is under way when the game is over\<close>

lemma pages_idle: "pages pg \<Longrightarrow> gameOver (game pg) \<Longrightarrow> currentDrag pg = None"
proof (induction rule: pages.induct)
  case loaded
  then show ?case
    by simp
next
  case (pressed pg a t)
  then show ?case
    by (auto simp: onMouseDown_def Let_def split: if_splits)
next
  case (released pg b)
  then show ?case
    by (auto simp: onMouseUp_def Let_def split: option.splits)
next
  case (restarted pg)
  then show ?case
    by (simp add: restart_def)
qed

lemma pages_attempts: "pages pg \<Longrightarrow> pages (attempts pg ms)"
proof (induction ms arbitrary: pg)
  case Nil
  then show ?case
    by simp
next
  case (Cons m ms)
  obtain a b where m: "m = (a, b)"
    by (cases m)
  from Cons.prems have "pages (attempt pg a b)"
    unfolding attempt_def by (intro pages.released pages.pressed)
  then have "pages (attempts (attempt pg a b) ms)"
    by (rule Cons.IH)
  then show ?case
    by (simp add: m)
qed

subsection \<open>The example game\<close>

lemma beforeMate_played: "play constructor (butlast foolsMate) = Some beforeMate"
  by code_simp

lemma queen_move: "legalMove beforeMate (0, 3) (4, 7)"
  by code_simp

lemma queen_applied:
  "applyMove beforeMate (0, 3) (4, 7) =
     mated\<lparr> gameOver := False, gameOverType := None, gameOverColor := None \<rparr>"
  by code_simp

lemma mated_facts:
  "isInCheck (positions mated) (enPassantTarget mated) (turn mated) \<and> \<not> anyMoves mated \<and>
   findKing (positions mated) (turn mated) = (7, 4)"
  by code_simp

lemma queen_mates: "movePiece beforeMate (0, 3) (4, 7) = mated"
proof -
  let ?m = "mated\<lparr> gameOver := False, gameOverType := None, gameOverColor := None \<rparr>"
  have f: "positions ?m = positions mated" "enPassantTarget ?m = enPassantTarget mated"
    "turn ?m = turn mated"
    by simp_all
  have a: "anyMoves ?m = anyMoves mated"
    by (rule anyMoves_status)
  have "updateStatus ?m = mated"
    using mated_facts by (simp add: updateStatus_def Let_def f a) (simp add: mated_def)
  then show ?thesis
    by (simp add: movePiece_def queen_applied)
qed

lemma mated_on_page:
  "attempts \<lparr> game = constructor, currentDrag = None \<rparr> foolsMate =
     \<lparr> game = mated, currentDrag = None \<rparr>"
  by code_simp

lemma mated_reachable: "reachable mated"
proof -
  have "reachable beforeMate"
    using reachable.start beforeMate_played by (rule play_reachable)
  then have "reachable (movePiece beforeMate (0, 3) (4, 7))"
    using queen_move by (rule reachable.move)
  then show ?thesis
    by (simp add: queen_mates)
qed

subsection \<open>Two more games\<close>

lemma pawnGame_played: "play constructor pawnGame = Some pawnOnE2"
  by code_simp

lemma kingGame_played: "play constructor kingGame = Some exposed"
  by code_simp

section \<open>Properties\<close>

subsection \<open>restart\<close>

text \<open>
  C9. \<open>restart\<close> from any state of the game gives the standard initial grid, no king or rook
  marked as moved, no en-passant target, white to move and no game-over status: the state
  is the one the constructor builds, whatever moves were played before.
\<close>

theorem restart_constructor:
  "restart s = constructor \<and>
   positions (restart s) = initialPositions \<and>
   \<not> kingMoved (restart s) W \<and> \<not> kingMoved (restart s) B \<and>
   \<not> rookMovedA (restart s) W \<and> \<not> rookMovedH (restart s) W \<and>
   \<not> rookMovedA (restart s) B \<and> \<not> rookMovedH (restart s) B \<and>
   enPassantTarget (restart s) = None \<and>
   turn (restart s) = W \<and>
   \<not> gameOver (restart s) \<and> gameOverType (restart s) = None \<and>
   gameOverColor (restart s) = None \<and>
   restart (movePiece s from to) = constructor"
  by (simp add: restart_def constructor_def kingMoved_def rookMovedA_def rookMovedH_def)

subsection \<open>The first move\<close>

text \<open>
  C6. In the standard starting position the white pieces have twenty moves between them by
  \<open>getLegal\<close> without \<open>ignoreCheck\<close>: two for each of the eight pawns and two for each of the
  two knights. It is white's turn, and pressing the mouse on any of the sixteen black pieces
  generates no move and starts no drag.
\<close>

theorem initial_moves:
  "(let s = constructor; b = positions s;
        own = (\<lambda>c. filter (\<lambda>(r, f). cell b r f \<noteq> E \<and> colorOf (cell b r f) = c) squares64);
        idle = \<lparr> game = s, currentDrag = None \<rparr>;
        white = map (\<lambda>(r, f). (cell b r f, getLegal s (r, f) (cell b r f) False)) (own W)
    in turn s = W \<and>
       white =
         [(WP, [(5, 0), (4, 0)]), (WP, [(5, 1), (4, 1)]), (WP, [(5, 2), (4, 2)]),
          (WP, [(5, 3), (4, 3)]), (WP, [(5, 4), (4, 4)]), (WP, [(5, 5), (4, 5)]),
          (WP, [(5, 6), (4, 6)]), (WP, [(5, 7), (4, 7)]),
          (WR, []), (WN, [(5, 2), (5, 0)]), (WB, []), (WQ, []), (WK, []), (WB, []),
          (WN, [(5, 7), (5, 5)]), (WR, [])] \<and>
       length (concat (map snd white)) = 20 \<and>
       length (concat (map snd (filter (\<lambda>(p, ms). p = WP) white))) = 16 \<and>
       length (concat (map snd (filter (\<lambda>(p, ms). p = WN) white))) = 4 \<and>
       length (own B) = 16 \<and>
       map (\<lambda>(r, f). onMouseDown idle (r, f) (cell b r f)) (own B) = replicate 16 (idle, []))"
proof -
  have white:
    "map (\<lambda>(r, f). (cell (positions constructor) r f,
            getLegal constructor (r, f) (cell (positions constructor) r f) False))
       (filter (\<lambda>(r, f). cell (positions constructor) r f \<noteq> E \<and>
            colorOf (cell (positions constructor) r f) = W) squares64) =
     [(WP, [(5, 0), (4, 0)]), (WP, [(5, 1), (4, 1)]), (WP, [(5, 2), (4, 2)]),
      (WP, [(5, 3), (4, 3)]), (WP, [(5, 4), (4, 4)]), (WP, [(5, 5), (4, 5)]),
      (WP, [(5, 6), (4, 6)]), (WP, [(5, 7), (4, 7)]),
      (WR, []), (WN, [(5, 2), (5, 0)]), (WB, []), (WQ, []), (WK, []), (WB, []),
      (WN, [(5, 7), (5, 5)]), (WR, [])]"
    by code_simp
  have black:
    "length (filter (\<lambda>(r, f). cell (positions constructor) r f \<noteq> E \<and>
        colorOf (cell (positions constructor) r f) = B) squares64) = 16 \<and>
     map (\<lambda>(r, f). onMouseDown \<lparr> game = constructor, currentDrag = None \<rparr> (r, f)
            (cell (positions constructor) r f))
       (filter (\<lambda>(r, f). cell (positions constructor) r f \<noteq> E \<and>
            colorOf (cell (positions constructor) r f) = B) squares64) =
     replicate 16 (\<lparr> game = constructor, currentDrag = None \<rparr>, [])"
    by code_simp
  have turn: "turn constructor = W"
    by (simp add: constructor_def)
  show ?thesis
    unfolding Let_def white using black turn by simp
qed

subsection \<open>The king-safety filter\<close>

text \<open>
  C3. Call a destination unsafe when, on the copy of the grid with the piece written on the
  destination and its origin cleared, some piece of the other colour has the square of the
  mover's king among the squares \<open>getLegal\<close> gives it with \<open>ignoreCheck\<close> set; this is what
  \<open>isInCheck\<close> answers on the copy. An unsafe destination that \<open>getLegal\<close> returns with
  \<open>ignoreCheck\<close> set is not returned without it; no destination returned without
  \<open>ignoreCheck\<close> is unsafe; and a destination returned with \<open>ignoreCheck\<close> set that is not
  unsafe is returned without it too.
\<close>

theorem check_safety_filter:
  "(let c = colorOf type;
        enemy = (if c = W then B else W);
        after = (\<lambda>to. relocate (positions s) from to);
        unsafe = (\<lambda>to. \<exists>(r, f) \<in> set squares64.
           cell (after to) r f \<noteq> E \<and> colorOf (cell (after to) r f) = enemy \<and>
           findKing (after to) c \<in>
             set (getLegal (s\<lparr> positions := after to \<rparr>) (r, f) (cell (after to) r f) True))
    in (\<forall>to. unsafe to \<longleftrightarrow> isInCheck (after to) (enPassantTarget s) c) \<and>
       (\<forall>to \<in> set (getLegal s from type True).
          unsafe to \<longrightarrow> to \<notin> set (getLegal s from type False)) \<and>
       (\<forall>to \<in> set (getLegal s from type False). \<not> unsafe to) \<and>
       (\<forall>to \<in> set (getLegal s from type True).
          \<not> unsafe to \<longrightarrow> to \<in> set (getLegal s from type False)))"
proof -
  have u: "(\<exists>(r, f) \<in> set squares64.
           cell (relocate (positions s) from to) r f \<noteq> E \<and>
           colorOf (cell (relocate (positions s) from to) r f) =
             (if colorOf type = W then B else W) \<and>
           findKing (relocate (positions s) from to) (colorOf type) \<in>
             set (getLegal (s\<lparr> positions := relocate (positions s) from to \<rparr>) (r, f)
                    (cell (relocate (positions s) from to) r f) True)) \<longleftrightarrow>
         \<not> staysSafe s from type to" for to
    by (simp add: staysSafe_def isInCheck_iff getLegal_ignoreCheck)
  have i: "isInCheck (relocate (positions s) from to) (enPassantTarget s) (colorOf type) \<longleftrightarrow>
      \<not> staysSafe s from type to" for to
    by (simp add: staysSafe_def)
  have l: "set (getLegal s from type False) =
      {to \<in> set (getLegal s from type True) \<union>
         set (if toLowerCase type = Bk then castlingMoves s type (fst from) (snd from) else []).
       staysSafe s from type to}"
    by (auto simp: getLegal_def Let_def)
  show ?thesis
    unfolding Let_def u i l by blast
qed

theorem check_safety_filter_witness:
  "(5, 3) \<in> set (getLegal pinned (6, 4) WB True) \<and>
   isInCheck (relocate (positions pinned) (6, 4) (5, 3)) (enPassantTarget pinned) (colorOf WB) \<and>
   (5, 3) \<notin> set (getLegal pinned (6, 4) WB False) \<and>
   (6, 5) \<in> set (getLegal pinned (7, 4) WK False) \<and>
   \<not> isInCheck (relocate (positions pinned) (7, 4) (6, 5)) (enPassantTarget pinned) (colorOf WK) \<and>
   (6, 3) \<in> set (getLegal pinned (7, 4) WK True) \<and>
   \<not> isInCheck (relocate (positions pinned) (7, 4) (6, 3)) (enPassantTarget pinned) (colorOf WK) \<and>
   (6, 3) \<in> set (getLegal pinned (7, 4) WK False)"
proof -
  have a: "(5, 3) \<in> set (getLegal pinned (6, 4) WB True)"
    by code_simp
  have b: "isInCheck (relocate (positions pinned) (6, 4) (5, 3)) (enPassantTarget pinned)
      (colorOf WB)"
    by code_simp
  have c: "(6, 5) \<in> set (getLegal pinned (7, 4) WK False)"
    by code_simp
  have d: "(6, 3) \<in> set (getLegal pinned (7, 4) WK True)"
    by code_simp
  have e: "\<not> isInCheck (relocate (positions pinned) (7, 4) (6, 3)) (enPassantTarget pinned)
      (colorOf WK)"
    by code_simp
  note bishop = check_safety_filter [of WB pinned "(6, 4)", unfolded Let_def]
  note king = check_safety_filter [of WK pinned "(7, 4)", unfolded Let_def]
  from bishop a b
  have 1: "(5, 3) \<notin> set (getLegal pinned (6, 4) WB False)"
    by blast
  from king c
  have 2: "\<not> isInCheck (relocate (positions pinned) (7, 4) (6, 5)) (enPassantTarget pinned)
      (colorOf WK)"
    by blast
  from king d e
  have 3: "(6, 3) \<in> set (getLegal pinned (7, 4) WK False)"
    by blast
  from a b c d e 1 2 3 show ?thesis
    by blast
qed

subsection \<open>The status after a move\<close>

text \<open>
  C2. After \<open>movePiece\<close> the turn is the other side's. If that side is in check and none of
  its pieces has a move by \<open>getLegal\<close> (\<open>anyMoves\<close> is false: no square of the grid holds a
  piece of that side with a non-empty \<open>getLegal\<close>), the game is over by checkmate, marked
  on that side's king; if it is not in check and has no move, the game is over by
  stalemate, marked the same way; if it has a move, the game-over fields are left as they
  were, so a game in progress stays in progress.
\<close>

theorem movePiece_status:
  "(let s' = movePiece s from to;
        c = turn s';
        b = positions s';
        inChk = isInCheck b (enPassantTarget s') c;
        any = anyMoves s'
    in c = (if turn s = W then B else W) \<and>
       (any \<longleftrightarrow>
          (\<exists>r f. r < length b \<and> f < length (b ! r) \<and>
             b ! r ! f \<noteq> E \<and> colorOf (b ! r ! f) = c \<and>
             getLegal s' (int r, int f) (b ! r ! f) False \<noteq> [])) \<and>
       (inChk \<and> \<not> any \<longrightarrow>
          gameOver s' \<and> gameOverType s' = Some ''checkmate'' \<and>
          gameOverColor s' = Some (findKing b c)) \<and>
       (\<not> inChk \<and> \<not> any \<longrightarrow>
          gameOver s' \<and> gameOverType s' = Some ''stalemate'' \<and>
          gameOverColor s' = Some (findKing b c)) \<and>
       (any \<longrightarrow>
          gameOver s' = gameOver s \<and> gameOverType s' = gameOverType s \<and>
          gameOverColor s' = gameOverColor s))"
proof -
  define m where "m = applyMove s from to"
  have t: "turn m = (if turn s = W then B else W)"
    by (simp add: m_def turn_applyMove)
  have g: "gameOver m = gameOver s" "gameOverType m = gameOverType s"
    "gameOverColor m = gameOverColor s"
    by (simp_all add: m_def status_applyMove)
  have mp: "movePiece s from to = updateStatus m"
    by (simp add: movePiece_def m_def)
  let ?u = "updateStatus m"
  have e: "anyMoves ?u \<longleftrightarrow>
      (\<exists>r f. r < length (positions ?u) \<and> f < length (positions ?u ! r) \<and>
         positions ?u ! r ! f \<noteq> E \<and> colorOf (positions ?u ! r ! f) = turn ?u \<and>
         getLegal ?u (int r, int f) (positions ?u ! r ! f) False \<noteq> [])"
    by (rule anyMoves_iff)
  have r: "turn ?u = (if turn s = W then B else W) \<and>
       (isInCheck (positions ?u) (enPassantTarget ?u) (turn ?u) \<and> \<not> anyMoves ?u \<longrightarrow>
          gameOver ?u \<and> gameOverType ?u = Some ''checkmate'' \<and>
          gameOverColor ?u = Some (findKing (positions ?u) (turn ?u))) \<and>
       (\<not> isInCheck (positions ?u) (enPassantTarget ?u) (turn ?u) \<and> \<not> anyMoves ?u \<longrightarrow>
          gameOver ?u \<and> gameOverType ?u = Some ''stalemate'' \<and>
          gameOverColor ?u = Some (findKing (positions ?u) (turn ?u))) \<and>
       (anyMoves ?u \<longrightarrow>
          gameOver ?u = gameOver s \<and> gameOverType ?u = gameOverType s \<and>
          gameOverColor ?u = gameOverColor s)"
    unfolding anyMoves_updateStatus updateStatus_fields
    by (cases "isInCheck (positions m) (enPassantTarget m) (turn m)"; cases "anyMoves m")
       (simp_all add: updateStatus_def t g)
  from r e show ?thesis
    unfolding mp Let_def
    by (elim conjE, intro conjI) assumption+
qed

theorem movePiece_status_witness:
  "turn (movePiece beforeMate (0, 3) (4, 7)) = W \<and>
   isInCheck (positions (movePiece beforeMate (0, 3) (4, 7)))
     (enPassantTarget (movePiece beforeMate (0, 3) (4, 7))) W \<and>
   \<not> anyMoves (movePiece beforeMate (0, 3) (4, 7)) \<and>
   gameOver (movePiece beforeMate (0, 3) (4, 7)) \<and>
   gameOverType (movePiece beforeMate (0, 3) (4, 7)) = Some ''checkmate'' \<and>
   gameOverColor (movePiece beforeMate (0, 3) (4, 7)) = Some (7, 4) \<and>
   turn (movePiece beforeStalemate (2, 2) (1, 2)) = B \<and>
   \<not> isInCheck (positions (movePiece beforeStalemate (2, 2) (1, 2)))
     (enPassantTarget (movePiece beforeStalemate (2, 2) (1, 2))) B \<and>
   \<not> anyMoves (movePiece beforeStalemate (2, 2) (1, 2)) \<and>
   gameOver (movePiece beforeStalemate (2, 2) (1, 2)) \<and>
   gameOverType (movePiece beforeStalemate (2, 2) (1, 2)) = Some ''stalemate'' \<and>
   gameOverColor (movePiece beforeStalemate (2, 2) (1, 2)) = Some (0, 0) \<and>
   anyMoves (movePiece constructor (6, 4) (4, 4)) \<and>
   \<not> gameOver (movePiece constructor (6, 4) (4, 4))"
proof -
  let ?s = "movePiece beforeMate (0, 3) (4, 7)"
  have p: "positions ?s = positions mated" "enPassantTarget ?s = enPassantTarget mated"
    by (simp_all add: movePiece_def updateStatus_fields queen_applied)
  have t: "turn mated = W" "turn beforeMate = B"
    by (simp_all add: mated_def beforeMate_def)
  have t': "turn ?s = W"
    by (simp add: movePiece_def updateStatus_fields queen_applied t)
  have a: "anyMoves ?s = anyMoves mated"
    by (simp add: movePiece_def anyMoves_updateStatus queen_applied anyMoves_status)
  have h: "isInCheck (positions ?s) (enPassantTarget ?s) W" "\<not> anyMoves ?s"
    "findKing (positions ?s) W = (7, 4)"
    using mated_facts by (simp_all add: p a t)
  from movePiece_status [of beforeMate "(0, 3)" "(4, 7)"] h t t'
  have 1: "gameOver ?s \<and> gameOverType ?s = Some ''checkmate'' \<and>
      gameOverColor ?s = Some (7, 4)"
    by (simp add: Let_def)
  let ?u = "movePiece beforeStalemate (2, 2) (1, 2)"
  have k: "turn beforeStalemate = W \<and> turn ?u = B \<and>
      \<not> isInCheck (positions ?u) (enPassantTarget ?u) B \<and> \<not> anyMoves ?u \<and>
      findKing (positions ?u) B = (0, 0)"
    by code_simp
  from movePiece_status [of beforeStalemate "(2, 2)" "(1, 2)"] k
  have 2: "gameOver ?u \<and> gameOverType ?u = Some ''stalemate'' \<and>
      gameOverColor ?u = Some (0, 0)"
    by (simp add: Let_def)
  let ?v = "movePiece constructor (6, 4) (4, 4)"
  have m: "anyMoves ?v" "\<not> gameOver constructor"
    by code_simp+
  from movePiece_status [of constructor "(6, 4)" "(4, 4)"] m
  have 3: "\<not> gameOver ?v"
    by (simp add: Let_def)
  from h t' 1 k 2 m 3 show ?thesis
    by simp
qed

subsection \<open>Moves after the end of the game\<close>

text \<open>
  C5, as the code has it. \<open>movePiece\<close> has no guard of its own: called on a finished game it
  still moves the piece. The guard is in \<open>_onMouseDown\<close>: once \<open>gameOver\<close> is set and no drag
  is under way, pressing the mouse on any piece generates no move and starts no drag, so
  an attempted move from any square to any square leaves the whole state as it is. In
  every state the page reaches, no drag is under way when \<open>gameOver\<close> is set. \<open>restart\<close>
  clears \<open>gameOver\<close>.
\<close>

theorem game_over_gate:
  "(gameOver (game pg) \<and> currentDrag pg = None \<longrightarrow>
      onMouseDown pg from type = (pg, []) \<and> attempt pg from to = pg) \<and>
   (pages pg \<and> gameOver (game pg) \<longrightarrow> currentDrag pg = None) \<and>
   currentDrag (onMouseUp pg to) = None \<and>
   \<not> gameOver (restart (game pg))"
proof -
  have "gameOver (game pg) \<and> currentDrag pg = None \<longrightarrow>
      onMouseDown pg from type = (pg, []) \<and> attempt pg from to = pg"
    by (simp add: onMouseDown_def attempt_def onMouseUp_def)
  moreover have "pages pg \<and> gameOver (game pg) \<longrightarrow> currentDrag pg = None"
    by (simp add: pages_idle)
  moreover have "currentDrag (onMouseUp pg to) = None"
    by (simp add: onMouseUp_def Let_def split: option.splits)
  moreover have "\<not> gameOver (restart (game pg))"
    by (simp add: restart_def)
  ultimately show ?thesis
    by blast
qed

theorem game_over_gate_witness:
  "pages \<lparr> game = mated, currentDrag = None \<rparr> \<and>
   gameOver (game \<lparr> game = mated, currentDrag = None \<rparr>) \<and>
   currentDrag \<lparr> game = mated, currentDrag = None \<rparr> = None \<and>
   onMouseDown \<lparr> game = mated, currentDrag = None \<rparr> (6, 0) WP =
     (\<lparr> game = mated, currentDrag = None \<rparr>, []) \<and>
   attempt \<lparr> game = mated, currentDrag = None \<rparr> (6, 0) (5, 0) =
     \<lparr> game = mated, currentDrag = None \<rparr>"
proof -
  have "pages (attempts \<lparr> game = constructor, currentDrag = None \<rparr> foolsMate)"
    using pages.loaded by (rule pages_attempts)
  then have p: "pages \<lparr> game = mated, currentDrag = None \<rparr>"
    by (simp add: mated_on_page)
  have g: "gameOver (game \<lparr> game = mated, currentDrag = None \<rparr>)"
    by (simp add: mated_def)
  from game_over_gate [of "\<lparr> game = mated, currentDrag = None \<rparr>" "(6, 0)" WP "(5, 0)"] p g
  have "currentDrag \<lparr> game = mated, currentDrag = None \<rparr> = None \<and>
    onMouseDown \<lparr> game = mated, currentDrag = None \<rparr> (6, 0) WP =
      (\<lparr> game = mated, currentDrag = None \<rparr>, []) \<and>
    attempt \<lparr> game = mated, currentDrag = None \<rparr> (6, 0) (5, 0) =
      \<lparr> game = mated, currentDrag = None \<rparr>"
    by blast
  with p g show ?thesis
    by blast
qed

text \<open>
  The claim as stated fails for \<open>movePiece\<close> itself: after the checkmate of the example
  game, \<open>movePiece\<close> from a2 to a3 puts the pawn on a3.
\<close>

theorem movePiece_unguarded:
  "gameOver mated \<and> gameOverType mated = Some ''checkmate'' \<and>
   cell (positions mated) 5 0 = E \<and>
   cell (positions (movePiece mated (6, 0) (5, 0))) 5 0 = WP \<and>
   movePiece mated (6, 0) (5, 0) \<noteq> mated"
proof -
  have a: "gameOver mated \<and> gameOverType mated = Some ''checkmate'' \<and>
      cell (positions mated) 5 0 = E"
    by code_simp
  have b: "cell (positions (movePiece mated (6, 0) (5, 0))) 5 0 = WP"
    by code_simp
  from a b have "movePiece mated (6, 0) (5, 0) \<noteq> mated"
    by auto
  with a b show ?thesis
    by blast
qed

subsection \<open>The rook of a castling king\<close>

text \<open>
  C10. When the piece that \<open>movePiece\<close> moves is a king and it moves two files, then,
  whatever stands on the squares concerned, the mover's home row has afterwards a rook of
  the mover's colour on the f-file and nothing on the h-file, and the h-rook is marked as
  moved, when the king went towards the h-file; and a rook on the d-file, nothing on the
  a-file and the a-rook marked as moved when it went towards the a-file.
\<close>

theorem castling_rook:
  assumes w: "grid8 (positions s)"
    and f: "inB (fst from) (snd from)" and t: "inB (fst to) (snd to)"
    and k: "toLowerCase (cell (positions s) (fst from) (snd from)) = Bk"
    and two: "\<bar>snd to - snd from\<bar> = 2"
  shows
    "(let c = colorOf (cell (positions s) (fst from) (snd from));
          homeRow = (if c = W then 7 else 0);
          rookChar = (if c = W then WR else Br);
          s' = movePiece s from to
      in (if snd to > snd from
          then cell (positions s') homeRow 5 = rookChar \<and> cell (positions s') homeRow 7 = E \<and>
               rookMovedH s' c
          else cell (positions s') homeRow 3 = rookChar \<and> cell (positions s') homeRow 0 = E \<and>
               rookMovedA s' c))"
proof -
  from k have "cell (positions s) (fst from) (snd from) = WK \<or>
      cell (positions s) (fst from) (snd from) = Bk"
    by (simp add: lower_king)
  then show ?thesis
  proof
    assume wk: "cell (positions s) (fst from) (snd from) = WK"
    show ?thesis using w f t two
      by (simp add: movePiece_def updateStatus_fields applyMove_def Let_def wk colorOf_def
            rookMovedH_def rookMovedA_def cell_setCell grid8_setCell inB_def)
  next
    assume bk: "cell (positions s) (fst from) (snd from) = Bk"
    show ?thesis using w f t two
      by (simp add: movePiece_def updateStatus_fields applyMove_def Let_def bk colorOf_def
            rookMovedH_def rookMovedA_def cell_setCell grid8_setCell inB_def)
  qed
qed

text \<open>
  In the starting position, with the bishop on f1 and the knight on g1: the call puts a
  rook on f1 and empties h1 all the same.
\<close>

theorem castling_rook_witness:
  "cell (positions constructor) 7 5 = WB \<and>
   cell (positions (movePiece constructor (7, 4) (7, 6))) 7 5 = WR \<and>
   cell (positions (movePiece constructor (7, 4) (7, 6))) 7 7 = E \<and>
   rookMovedH (movePiece constructor (7, 4) (7, 6)) W"
proof -
  have h: "grid8 (positions constructor)" "inB (fst (7, 4)) (snd (7, 4))"
    "inB (fst (7, 6)) (snd (7, 6))"
    "toLowerCase (cell (positions constructor) (fst (7, 4)) (snd (7, 4))) = Bk"
    "\<bar>snd (7, 6) - snd (7, 4)\<bar> = (2::int)"
    "colorOf (cell (positions constructor) (fst (7, 4)) (snd (7, 4))) = W"
    "cell (positions constructor) 7 5 = WB"
    by code_simp+
  from castling_rook [OF h(1-5)] h(6,7) show ?thesis
    by (simp add: Let_def)
qed

subsection \<open>The en-passant target\<close>



subsection \<open>Castling past a pawn\<close>

text \<open>
  C1 fails on the code. In the state \<open>pawnOnE2\<close>, reached by moves that \<open>getLegal\<close> returned,
  white is to move with the king on e1, neither the king nor the h-rook has moved, and f1
  and g1 are empty. The black pawn on e2 attacks f1: the king's own step to f1 is in its
  movement pattern and is removed by the filter, because the king would be in check there.
  But \<open>isAttacked\<close> says that f1 is not attacked (a pawn's diagonal square is listed by
  \<open>getLegal\<close> only when an enemy stands on it or it is the en-passant target), and
  \<open>getLegal\<close> returns the castling square g1.
\<close>

theorem castling_through_attacked_f1:
  "reachable pawnOnE2 \<and>
   turn pawnOnE2 = W \<and> cell (positions pawnOnE2) 7 4 = WK \<and>
   \<not> kingMoved pawnOnE2 W \<and> \<not> rookMovedH pawnOnE2 W \<and>
   isEmp (positions pawnOnE2) 7 5 \<and> isEmp (positions pawnOnE2) 7 6 \<and>
   cell (positions pawnOnE2) 6 4 = Bp \<and>
   getLegal pawnOnE2 (7, 4) WK True = [(6, 4), (7, 5)] \<and>
   isInCheck (relocate (positions pawnOnE2) (7, 4) (7, 5)) (enPassantTarget pawnOnE2) W \<and>
   isAttacked (positions pawnOnE2) (enPassantTarget pawnOnE2) 7 5 B = False \<and>
   getLegal pawnOnE2 (7, 4) WK False = [(6, 4), (7, 6)]"
proof -
  have r: "reachable pawnOnE2"
    using reachable.start pawnGame_played by (rule play_reachable)
  have e: "turn pawnOnE2 = W \<and> cell (positions pawnOnE2) 7 4 = WK \<and>
      \<not> kingMoved pawnOnE2 W \<and> \<not> rookMovedH pawnOnE2 W \<and>
      isEmp (positions pawnOnE2) 7 5 \<and> isEmp (positions pawnOnE2) 7 6 \<and>
      cell (positions pawnOnE2) 6 4 = Bp \<and>
      getLegal pawnOnE2 (7, 4) WK True = [(6, 4), (7, 5)] \<and>
      isInCheck (relocate (positions pawnOnE2) (7, 4) (7, 5)) (enPassantTarget pawnOnE2) W \<and>
      isAttacked (positions pawnOnE2) (enPassantTarget pawnOnE2) 7 5 B = False"
    by code_simp
  have g: "getLegal pawnOnE2 (7, 4) WK False = [(6, 4), (7, 6)]"
    by code_simp
  from r e g show ?thesis
    by simp
qed

subsection \<open>A king is captured\<close>

text \<open>
  C7 fails on the code. The king-safety filter relocates the moving piece only; for a
  capture in passing it leaves the captured pawn on the copy. In the game \<open>kingGame\<close> the
  white pawn's capture on d6 is returned by \<open>getLegal\<close> although, once \<open>movePiece\<close> has
  removed the black pawn from d5, the white king on g5 stands in check from the queen on
  a5. It is then black's move, \<open>getLegal\<close> returns the king's square for the queen, and
  after that move the grid has no white king.
\<close>

theorem king_captured:
  "reachable exposed \<and> kings (positions exposed) W = 1 \<and> kings (positions exposed) B = 1 \<and>
   turn exposed = B \<and> cell (positions exposed) 3 6 = WK \<and>
   isInCheck (positions exposed) (enPassantTarget exposed) W \<and>
   legalMove exposed (3, 0) (3, 6) \<and>
   movePiece exposed (3, 0) (3, 6) = kingLost \<and>
   reachable kingLost \<and> kings (positions kingLost) W = 0"
proof -
  have r: "reachable exposed"
    using reachable.start kingGame_played by (rule play_reachable)
  have e: "kings (positions exposed) W = 1 \<and> kings (positions exposed) B = 1 \<and>
      turn exposed = B \<and> cell (positions exposed) 3 6 = WK \<and>
      isInCheck (positions exposed) (enPassantTarget exposed) W"
    by code_simp
  have l: "legalMove exposed (3, 0) (3, 6)"
    by code_simp
  have m: "movePiece exposed (3, 0) (3, 6) = kingLost"
    by code_simp
  have k: "kings (positions kingLost) W = 0"
    by code_simp
  from r l have "reachable (movePiece exposed (3, 0) (3, 6))"
    by (rule reachable.move)
  with r e l m k show ?thesis
    by simp
qed

subsection \<open>The queries leave the state alone\<close>

text \<open>
  C8. On the store, with \<open>this.positions\<close> pointing to an 8x8 grid and \<open>from\<close> on the board:
  \<open>getLegal\<close>, with either value of \<open>ignoreCheck\<close>, returns the moves that the model
  \<open>getLegal\<close> gives for the game the object stands for, and leaves the object as it was
  (\<open>positions\<close> points to the same array again, and the side to move, the castling flags,
  the en-passant target and the game-over fields are the same), every array that existed
  before the call has the contents it had, and so the object stands for the same game.
  The copies that the filter wrote to are new arrays that nothing refers to afterwards.
  \<open>isInCheck\<close> and \<open>isAttacked\<close> return the store and the object unchanged.
\<close>

theorem queries_leave_state:
  assumes a: "allocated h (positions th)"
    and g: "grid8 (gridOf h (positions th))"
    and f: "inB (fst from) (snd from)"
  shows
    "(case getLegalH h th from type ignoreCheck of
        (ms, h', th') \<Rightarrow>
          ms = getLegal (view h th) from type ignoreCheck \<and>
          th' = th \<and> view h' th' = view h th \<and>
          (\<forall>a. a < fresh h \<longrightarrow> rowAt h' a = rowAt h a \<and> gridAt h' a = gridAt h a)) \<and>
     isInCheckH h th c =
       (isInCheck (positions (view h th)) (enPassantTarget (view h th)) c, h, th) \<and>
     isAttackedH h th r0 f0 c =
       (isAttacked (positions (view h th)) (enPassantTarget (view h th)) r0 f0 c, h, th)"
proof -
  let ?s = "view h th"
  let ?cands = "attackMoves (positions ?s) (enPassantTarget ?s) from type @
      (if toLowerCase type = Bk \<and> \<not> ignoreCheck
       then castlingMoves ?s type (fst from) (snd from) else [])"
  have q: "isInCheckH h th c =
       (isInCheck (positions ?s) (enPassantTarget ?s) c, h, th) \<and>
     isAttackedH h th r0 f0 c =
       (isAttacked (positions ?s) (enPassantTarget ?s) r0 f0 c, h, th)"
    by (simp add: isInCheckH_def isAttackedH_def view_def)
  have l: "case getLegalH h th from type ignoreCheck of
        (ms, h', th') \<Rightarrow>
          ms = getLegal ?s from type ignoreCheck \<and>
          th' = th \<and> view h' th' = ?s \<and>
          (\<forall>a. a < fresh h \<longrightarrow> rowAt h' a = rowAt h a \<and> gridAt h' a = gridAt h a)"
  proof (cases ignoreCheck)
    case True
    then show ?thesis
      by (simp add: getLegalH_def getLegal_def Let_def)
  next
    case False
    have i: "\<forall>x \<in> set ?cands. inB (fst x) (snd x)"
      using f by (auto dest: attackMoves_inB castlingMoves_inB split: if_splits)
    from filterH_frame [OF a g f i] obtain h' where
      r: "filterH h th from type ?cands = (filter (staysSafe ?s from type) ?cands, h', th)"
      and le: "fresh h \<le> fresh h'"
      and u: "\<forall>a. a < fresh h \<longrightarrow> rowAt h' a = rowAt h a \<and> gridAt h' a = gridAt h a"
      by blast
    from gridOf_old(1) [OF a u le] have v: "view h' th = ?s"
      by (rule view_old)
    have e: "getLegalH h th from type ignoreCheck =
        (filter (staysSafe ?s from type) ?cands, h', th)"
      using False r by (simp add: getLegalH_def Let_def)
    have m: "getLegal ?s from type ignoreCheck = filter (staysSafe ?s from type) ?cands"
      using False by (simp add: getLegal_def Let_def)
    from v u show ?thesis
      by (simp add: e m)
  qed
  from l q show ?thesis
    by (rule conjI)
qed

theorem queries_leave_state_witness:
  "(case getLegalH store0 this0 (6, 4) WP False of
      (ms, h', th') \<Rightarrow>
        ms = [(5, 4), (4, 4)] \<and> th' = this0 \<and> view h' th' = constructor \<and>
        rowAt h' 6 = [WP, WP, WP, WP, WP, WP, WP, WP] \<and> gridAt h' 8 = [0, 1, 2, 3, 4, 5, 6, 7])"
proof -
  have a: "allocated store0 (positions this0)"
    by (simp add: allocated_def store0_def this0_def)
  have g: "grid8 (gridOf store0 (positions this0))"
    by (simp add: gridOf_def store0_def this0_def grid8_def initialPositions_def)
  have f: "inB (fst (6, 4)) (snd (6, 4))"
    by (simp add: inB_def)
  have e: "getLegal constructor (6, 4) WP False = [(5, 4), (4, 4)]"
    by code_simp
  have o: "rowAt store0 6 = [WP, WP, WP, WP, WP, WP, WP, WP]"
    "gridAt store0 8 = [0, 1, 2, 3, 4, 5, 6, 7]" "(6::nat) < fresh store0" "(8::nat) < fresh store0"
    by (simp_all add: store0_def initialPositions_def)
  obtain ms h' th' where r: "getLegalH store0 this0 (6, 4) WP False = (ms, h', th')"
    by (cases "getLegalH store0 this0 (6, 4) WP False")
  from queries_leave_state [OF a g f, of WP False W 0 0, THEN conjunct1]
  have "ms = getLegal (view store0 this0) (6, 4) WP False \<and> th' = this0 \<and>
    view h' th' = view store0 this0 \<and>
    (\<forall>a. a < fresh store0 \<longrightarrow> rowAt h' a = rowAt store0 a \<and> gridAt h' a = gridAt store0 a)"
    unfolding r prod.case .
  then have t: "ms = getLegal (view store0 this0) (6, 4) WP False" "th' = this0"
    "view h' th' = view store0 this0"
    "\<forall>a. a < fresh store0 \<longrightarrow> rowAt h' a = rowAt store0 a \<and> gridAt h' a = gridAt store0 a"
    by blast+
  from t(4) o have "rowAt h' 6 = [WP, WP, WP, WP, WP, WP, WP, WP]"
    "gridAt h' 8 = [0, 1, 2, 3, 4, 5, 6, 7]"
    by simp_all
  with t(1-3) show ?thesis
    by (simp add: r view_store0 e)
qed

end
